theory Spec2Isabelle
  imports Main
begin

section \<open>The EC2 health check module (cloud/amazon/ec2_healthcheck.py)\<close>

subsection \<open>Exceptions\<close>

text \<open>
  Every exception the module can meet is a value. \<open>Exception\<close> is the one
  \<open>check_health\<close> raises itself when no connection is made, \<open>EC2ResponseError\<close>
  stands for whatever the status query of the provider library raises, \<open>KeyError\<close> is
  the failed dictionary lookup, and \<open>IOError\<close> is what \<open>time.sleep\<close> raises on a
  negative argument.
\<close>

datatype exn =
    Exception string
  | EC2ResponseError string
  | KeyError string
  | IOError string

text \<open>\<open>str(e)\<close>: the message; a \<open>KeyError\<close> prints the quoted key.\<close>

fun str :: "exn \<Rightarrow> string" where
  "str (Exception m) = m"
| "str (EC2ResponseError m) = m"
| "str (KeyError k) = [CHR 0x27] @ k @ [CHR 0x27]"
| "str (IOError m) = m"

subsection \<open>Status snapshots\<close>

text \<open>
  The objects returned by \<open>get_all_instance_status\<close>, with the attributes the module
  reads: \<open>status.state_name\<close>, \<open>status.instance_status.status\<close> and
  \<open>status.system_status.details\<close> (a dictionary). An attribute that holds a string may
  hold \<open>None\<close>.
\<close>

record Status =
  status :: "string option"
  details :: "string \<rightharpoonup> string"

record InstanceStatus =
  state_name :: "string option"
  instance_status :: Status
  system_status :: Status

subsection \<open>The outside world\<close>

text \<open>
  What a run does to the outside is recorded, in order, in a trace: each call of
  \<open>get_all_instance_status\<close> with what it gave back, each call of
  \<open>_is_instance_reachable\<close> with its outcome, and each completed \<open>time.sleep\<close>.
\<close>

datatype event =
    is_Query: Query "exn + InstanceStatus list"
  | is_Evaluate: Evaluate "exn + bool"
  | is_Sleep: Sleep int

type_synonym world = "event list"

text \<open>
  A connection answers the k-th status query (counted from 0) for a list of instance
  ids, either with a list of snapshots or by raising.
\<close>

type_synonym connection = "string list \<Rightarrow> nat \<Rightarrow> exn + InstanceStatus list"

text \<open>
  \<open>boto.ec2.connect_to_region(region, ...)\<close>: given the region and, optionally, the
  pair of access and secret key, a connection or \<open>None\<close>.
\<close>

type_synonym boto_ec2 = "string \<Rightarrow> (string \<times> string) option \<Rightarrow> connection option"

definition queries_made :: "world \<Rightarrow> nat" where
  "queries_made w = length (filter is_Query w)"

definition evaluations_made :: "world \<Rightarrow> nat" where
  "evaluations_made w = length (filter is_Evaluate w)"

definition sleeps_made :: "world \<Rightarrow> int list" where
  "sleeps_made w = map (\<lambda>e. case e of Sleep i \<Rightarrow> i | _ \<Rightarrow> 0) (filter is_Sleep w)"

definition get_all_instance_status ::
  "connection \<Rightarrow> string list \<Rightarrow> world \<Rightarrow> world \<times> (exn + InstanceStatus list)" where
  "get_all_instance_status conn instance_ids w =
     (let r = conn instance_ids (queries_made w) in (w @ [Query r], r))"

text \<open>\<open>time.sleep(interval)\<close>: a negative argument raises, nothing is slept.\<close>

definition time_sleep :: "int \<Rightarrow> world \<Rightarrow> world \<times> (exn + unit)" where
  "time_sleep interval w =
     (if interval < 0 then (w, Inl (IOError ''[Errno 22] Invalid argument''))
      else (w @ [Sleep interval], Inr ()))"

subsection \<open>\<open>EC2HealthCheck._is_instance_reachable\<close>\<close>

fun is_instance_reachable :: "InstanceStatus list \<Rightarrow> exn + bool" where
  "is_instance_reachable [] = Inr False"
| "is_instance_reachable (s # rest) =
     (if status (instance_status s) \<noteq> Some ''ok'' then Inr False
      else if state_name s \<noteq> Some ''running'' then Inr False
      else (case details (system_status s) ''reachability'' of
              None \<Rightarrow> Inl (KeyError ''reachability'')
            | Some r \<Rightarrow> if r \<noteq> ''passed'' then Inr False else Inr True))"

subsection \<open>\<open>EC2HealthCheck.check_health\<close>\<close>

text \<open>
  The \<open>while (count < repeat)\<close> loop, entered with the snapshot of the query made
  before it. Each round evaluates the snapshot it holds, returns \<open>True\<close> when it is
  reachable, and otherwise sleeps and queries again. When the loop ends the result is
  \<open>False\<close>.
\<close>

function check_health_loop ::
  "connection \<Rightarrow> string \<Rightarrow> int \<Rightarrow> int \<Rightarrow> int \<Rightarrow> InstanceStatus list \<Rightarrow> world
     \<Rightarrow> world \<times> (exn + bool)" where
  "check_health_loop conn instance_id interval repeat count st w =
     (if count < repeat then
        (case is_instance_reachable st of
           Inl e \<Rightarrow> (w @ [Evaluate (Inl e)], Inl e)
         | Inr True \<Rightarrow> (w @ [Evaluate (Inr True)], Inr True)
         | Inr False \<Rightarrow>
             (case time_sleep interval (w @ [Evaluate (Inr False)]) of
                (w1, Inl e) \<Rightarrow> (w1, Inl e)
              | (w1, Inr u) \<Rightarrow>
                  (case get_all_instance_status conn [instance_id] w1 of
                     (w2, Inl e) \<Rightarrow> (w2, Inl e)
                   | (w2, Inr st') \<Rightarrow>
                       check_health_loop conn instance_id interval repeat (count + 1) st' w2)))
      else (w, Inr False))"
  by pat_completeness auto
termination
  by (relation "measure (\<lambda>(conn, instance_id, interval, repeat, count, st, w).
        nat (repeat - count))") auto

declare check_health_loop.simps [simp del]

text \<open>
  Lines 88 to 93: with both keys given the connection is made with them, otherwise
  with the region alone.
\<close>

definition connect :: "boto_ec2 \<Rightarrow> string \<Rightarrow> string option \<Rightarrow> string option \<Rightarrow> connection option" where
  "connect boto region access secret =
     (case (access, secret) of
        (Some a, Some s) \<Rightarrow> boto region (Some (a, s))
      | _ \<Rightarrow> boto region None)"

definition check_health ::
  "boto_ec2 \<Rightarrow> string \<Rightarrow> string \<Rightarrow> int \<Rightarrow> int \<Rightarrow> string option \<Rightarrow> string option
     \<Rightarrow> world \<Rightarrow> world \<times> (exn + bool)" where
  "check_health boto instance_id region interval repeat access secret w =
     (case connect boto region access secret of
        None \<Rightarrow>
          (w, Inl (Exception (''Couldn't connect to AWS. Check the region name'')))
      | Some conn \<Rightarrow>
          (case get_all_instance_status conn [instance_id] w of
             (w1, Inl e) \<Rightarrow> (w1, Inl e)
           | (w1, Inr st) \<Rightarrow> check_health_loop conn instance_id interval repeat 0 st w1))"

subsection \<open>\<open>main\<close>\<close>

text \<open>
  The parameters after the argument parsing of the module, and the two ways a run
  of the module ends: \<open>module.fail_json(msg=...)\<close> or
  \<open>module.exit_json(changed=..., stdout=...)\<close>. Both leave the interpreter at once
  (through \<open>SystemExit\<close>, which \<open>except Exception\<close> does not catch).
\<close>

record module_params =
  param_instance_id :: string
  param_region :: string
  param_interval :: int
  param_repeat :: int
  param_fail_unreachable :: bool
  param_aws_access_key :: "string option"
  param_aws_secret_key :: "string option"

datatype module_result =
    fail_json string
  | exit_json bool string

definition main :: "bool \<Rightarrow> boto_ec2 \<Rightarrow> module_params \<Rightarrow> world \<Rightarrow> world \<times> module_result" where
  "main HAS_BOTO boto params w =
     (if \<not> HAS_BOTO then (w, fail_json ''boto required for this module'')
      else
        let instance_id = param_instance_id params in
        case check_health boto instance_id (param_region params) (param_interval params)
               (param_repeat params) (param_aws_access_key params)
               (param_aws_secret_key params) w of
          (w1, Inl e) \<Rightarrow>
            (w1, fail_json (''An error occurred while performing a health check on '' @
                            instance_id @ '' | error: '' @ str e))
        | (w1, Inr reachable) \<Rightarrow>
            if \<not> reachable \<and> param_fail_unreachable params
            then (w1, fail_json (''The following instance isn't reachable: '' @
                                 instance_id))
            else (w1, exit_json False
                        ((''The following instance is '' @
                          (if reachable then ''rechable '' else ''unreachable '')) @
                         instance_id)))"

subsection \<open>Snapshots and providers used in the examples\<close>

text \<open>A running instance that passes both checks, and one that is still pending.\<close>

definition healthy :: InstanceStatus where
  "healthy = \<lparr>state_name = Some ''running'',
     instance_status = \<lparr>status = Some ''ok'', details = [''reachability'' \<mapsto> ''passed'']\<rparr>,
     system_status = \<lparr>status = Some ''ok'', details = [''reachability'' \<mapsto> ''passed'']\<rparr>\<rparr>"

definition pending :: InstanceStatus where
  "pending = \<lparr>state_name = Some ''pending'',
     instance_status = \<lparr>status = Some ''not-applicable'', details = Map.empty\<rparr>,
     system_status = \<lparr>status = Some ''not-applicable'', details = Map.empty\<rparr>\<rparr>"

text \<open>A running instance with passed instance check whose system status lists no details.\<close>

definition undetailed :: InstanceStatus where
  "undetailed = \<lparr>state_name = Some ''running'',
     instance_status = \<lparr>status = Some ''ok'', details = Map.empty\<rparr>,
     system_status = \<lparr>status = Some ''ok'', details = Map.empty\<rparr>\<rparr>"

text \<open>
  A running instance with passed instance check for which the system check has reported
  nothing yet: its system status is "insufficient-data" and carries no details.
\<close>

definition unreported :: InstanceStatus where
  "unreported = \<lparr>state_name = Some ''running'',
     instance_status = \<lparr>status = Some ''ok'', details = [''reachability'' \<mapsto> ''passed'']\<rparr>,
     system_status = \<lparr>status = Some ''insufficient-data'', details = Map.empty\<rparr>\<rparr>"

text \<open>A connection that answers the queries with the given replies, in order.\<close>

definition replies :: "(exn + InstanceStatus list) list \<Rightarrow> connection" where
  "replies rs instance_ids k = (if k < length rs then rs ! k else Inr [])"

definition always_connects :: "connection \<Rightarrow> boto_ec2" where
  "always_connects conn region keys = Some conn"

text \<open>A query that raised.\<close>

fun query_failed :: "event \<Rightarrow> bool" where
  "query_failed (Query (Inl e)) = True"
| "query_failed ev = False"

section \<open>Unfolding the run\<close>

lemma check_health_loop_unfold:
  "check_health_loop conn instance_id interval repeat count st w =
     (if count < repeat then
        (case is_instance_reachable st of
           Inl e \<Rightarrow> (w @ [Evaluate (Inl e)], Inl e)
         | Inr True \<Rightarrow> (w @ [Evaluate (Inr True)], Inr True)
         | Inr False \<Rightarrow>
             if interval < 0
             then (w @ [Evaluate (Inr False)], Inl (IOError ''[Errno 22] Invalid argument''))
             else (case conn [instance_id] (queries_made w) of
                     Inl e \<Rightarrow> (w @ [Evaluate (Inr False), Sleep interval, Query (Inl e)], Inl e)
                   | Inr st' \<Rightarrow>
                       check_health_loop conn instance_id interval repeat (count + 1) st'
                         (w @ [Evaluate (Inr False), Sleep interval, Query (Inr st')])))
      else (w, Inr False))"
  by (subst check_health_loop.simps)
     (simp add: time_sleep_def get_all_instance_status_def queries_made_def Let_def
           split: sum.splits bool.splits)

lemma check_health_unfold:
  "check_health boto instance_id region interval repeat access secret w =
     (case connect boto region access secret of
        None \<Rightarrow>
          (w, Inl (Exception (''Couldn't connect to AWS. Check the region name'')))
      | Some conn \<Rightarrow>
          (case conn [instance_id] (queries_made w) of
             Inl e \<Rightarrow> (w @ [Query (Inl e)], Inl e)
           | Inr st \<Rightarrow>
               check_health_loop conn instance_id interval repeat 0 st (w @ [Query (Inr st)])))"
  by (simp add: check_health_def get_all_instance_status_def Let_def
        split: option.splits sum.splits)

text \<open>A run only ever adds to the trace.\<close>

lemma check_health_loop_extends:
  "\<exists>tr. fst (check_health_loop conn instance_id interval repeat count st w) = w @ tr"
proof (induction "nat (repeat - count)" arbitrary: count st w)
  case 0
  then show ?case by (subst check_health_loop_unfold) simp
next
  case (Suc n)
  have step: "\<exists>tr. fst (check_health_loop conn instance_id interval repeat (count + 1) st'
                          (w @ pre)) = w @ tr" for st' pre
  proof -
    from Suc.hyps(2) have "n = nat (repeat - (count + 1))" by simp
    from Suc.hyps(1)[OF this, of st' "w @ pre"] show ?thesis by auto
  qed
  show ?case
    by (subst check_health_loop_unfold) (simp add: step split: sum.splits bool.splits)
qed

lemma check_health_extends:
  "\<exists>tr. fst (check_health boto instance_id region interval repeat access secret w) = w @ tr"
proof (cases "connect boto region access secret")
  case None
  then show ?thesis by (simp add: check_health_unfold)
next
  case (Some conn)
  show ?thesis
  proof (cases "conn [instance_id] (queries_made w)")
    case (Inl e)
    with Some show ?thesis by (simp add: check_health_unfold)
  next
    case (Inr st)
    from check_health_loop_extends[of conn instance_id interval repeat 0 st "w @ [Query (Inr st)]"]
    obtain tr where
      "fst (check_health_loop conn instance_id interval repeat 0 st (w @ [Query (Inr st)]))
         = w @ [Query (Inr st)] @ tr"
      by auto
    with Some Inr show ?thesis by (simp add: check_health_unfold)
  qed
qed

text \<open>
  The ways one round of the loop can go: the loop is over; the evaluation raises; the
  snapshot is reachable; the sleep raises; the next query raises; or the next query
  answers and the loop goes on from there.
\<close>

lemma check_health_loop_cases [consumes 1, case_names exit raise reach nosleep qfail again]:
  assumes run: "check_health_loop conn instance_id interval repeat count st w = (w @ tr, r)"
  obtains
    "\<not> count < repeat" "tr = []" "r = Inr False"
  | e where "count < repeat" "is_instance_reachable st = Inl e"
      "tr = [Evaluate (Inl e)]" "r = Inl e"
  | "count < repeat" "is_instance_reachable st = Inr True"
      "tr = [Evaluate (Inr True)]" "r = Inr True"
  | "count < repeat" "is_instance_reachable st = Inr False" "interval < 0"
      "tr = [Evaluate (Inr False)]" "r = Inl (IOError ''[Errno 22] Invalid argument'')"
  | e where "count < repeat" "is_instance_reachable st = Inr False" "0 \<le> interval"
      "conn [instance_id] (queries_made w) = Inl e"
      "tr = [Evaluate (Inr False), Sleep interval, Query (Inl e)]" "r = Inl e"
  | st' tr' where "count < repeat" "is_instance_reachable st = Inr False" "0 \<le> interval"
      "conn [instance_id] (queries_made w) = Inr st'"
      "tr = [Evaluate (Inr False), Sleep interval, Query (Inr st')] @ tr'"
      "check_health_loop conn instance_id interval repeat (count + 1) st'
         (w @ [Evaluate (Inr False), Sleep interval, Query (Inr st')])
       = ((w @ [Evaluate (Inr False), Sleep interval, Query (Inr st')]) @ tr', r)"
proof (cases "count < repeat")
  case False
  with run have "tr = [] \<and> r = Inr False"
    by (subst (asm) check_health_loop_unfold) auto
  with False that(1) show ?thesis by blast
next
  case lt: True
  show ?thesis
  proof (cases "is_instance_reachable st")
    case (Inl e)
    with lt run have "tr = [Evaluate (Inl e)] \<and> r = Inl e"
      by (subst (asm) check_health_loop_unfold) auto
    with lt Inl that(2) show ?thesis by blast
  next
    case (Inr b)
    show ?thesis
    proof (cases b)
      case True
      with Inr have ev: "is_instance_reachable st = Inr True" by simp
      with lt run have "tr = [Evaluate (Inr True)] \<and> r = Inr True"
        by (subst (asm) check_health_loop_unfold) auto
      with lt ev that(3) show ?thesis by blast
    next
      case False
      with Inr have ev: "is_instance_reachable st = Inr False" by simp
      show ?thesis
      proof (cases "interval < 0")
        case True
        with ev lt run
        have "tr = [Evaluate (Inr False)] \<and> r = Inl (IOError ''[Errno 22] Invalid argument'')"
          by (subst (asm) check_health_loop_unfold) auto
        with lt ev True that(4) show ?thesis by blast
      next
        case False
        then have nonneg: "0 \<le> interval" by simp
        show ?thesis
        proof (cases "conn [instance_id] (queries_made w)")
          case (Inl e)
          with False ev lt run
          have "tr = [Evaluate (Inr False), Sleep interval, Query (Inl e)] \<and> r = Inl e"
            by (subst (asm) check_health_loop_unfold) auto
          with lt ev nonneg Inl that(5) show ?thesis by blast
        next
          case (Inr st')
          let ?pre = "[Evaluate (Inr False), Sleep interval, Query (Inr st')]"
          from Inr False ev lt run
          have go: "check_health_loop conn instance_id interval repeat (count + 1) st' (w @ ?pre)
                      = (w @ tr, r)"
            by (subst (asm) check_health_loop_unfold) auto
          from check_health_loop_extends[of conn instance_id interval repeat "count + 1" st'
                 "w @ ?pre"] go
          obtain tr' where tr: "tr = ?pre @ tr'" by auto
          with go have "check_health_loop conn instance_id interval repeat (count + 1) st'
                          (w @ ?pre) = ((w @ ?pre) @ tr', r)" by simp
          with lt ev nonneg Inr tr that(6) show ?thesis by blast
        qed
      qed
    qed
  qed
qed

lemma check_health_cases [consumes 1, case_names noconn qfail poll]:
  assumes run: "check_health boto instance_id region interval repeat access secret w = (w @ tr, r)"
  obtains
    "connect boto region access secret = None" "tr = []"
      "r = Inl (Exception (''Couldn't connect to AWS. Check the region name''))"
  | conn e where "connect boto region access secret = Some conn"
      "conn [instance_id] (queries_made w) = Inl e" "tr = [Query (Inl e)]" "r = Inl e"
  | conn st tr' where "connect boto region access secret = Some conn"
      "conn [instance_id] (queries_made w) = Inr st" "tr = Query (Inr st) # tr'"
      "check_health_loop conn instance_id interval repeat 0 st (w @ [Query (Inr st)])
         = ((w @ [Query (Inr st)]) @ tr', r)"
proof (cases "connect boto region access secret")
  case None
  with run have "tr = [] \<and>
      r = Inl (Exception (''Couldn't connect to AWS. Check the region name''))"
    by (auto simp: check_health_unfold)
  with None that(1) show ?thesis by blast
next
  case (Some conn)
  show ?thesis
  proof (cases "conn [instance_id] (queries_made w)")
    case (Inl e)
    with Some run have "tr = [Query (Inl e)] \<and> r = Inl e"
      by (auto simp: check_health_unfold)
    with Some Inl that(2) show ?thesis by blast
  next
    case (Inr st)
    with Some run
    have go: "check_health_loop conn instance_id interval repeat 0 st (w @ [Query (Inr st)])
                = (w @ tr, r)"
      by (simp add: check_health_unfold)
    from check_health_loop_extends[of conn instance_id interval repeat 0 st
           "w @ [Query (Inr st)]"] go
    obtain tr' where tr: "tr = Query (Inr st) # tr'" by auto
    with go have "check_health_loop conn instance_id interval repeat 0 st (w @ [Query (Inr st)])
                    = ((w @ [Query (Inr st)]) @ tr', r)" by simp
    with Some Inr tr that(3) show ?thesis by blast
  qed
qed

text \<open>The evaluator on the example snapshots.\<close>

lemma healthy_reachable: "is_instance_reachable [healthy] = Inr True"
  by (simp add: healthy_def)

lemma pending_unreachable: "is_instance_reachable [pending] = Inr False"
  by (simp add: pending_def)

section \<open>The evaluator\<close>

text \<open>
  Claim C4 says that the evaluator returns false as soon as one of the three fields
  deviates. It does not when the deviation is an absent system reachability: on a
  running instance with instance status "ok" whose system status has no
  \<open>reachability\<close> entry the evaluator returns neither true nor false, it raises.
\<close>

theorem is_instance_reachable_absent_reachability:
  "status (instance_status unreported) = Some ''ok'' \<and>
   state_name unreported = Some ''running'' \<and>
   details (system_status unreported) ''reachability'' \<noteq> Some ''passed'' \<and>
   is_instance_reachable [unreported] \<noteq> Inr False \<and>
   is_instance_reachable [unreported] = Inl (KeyError ''reachability'')"
  by (simp add: unreported_def)

text \<open>
  Claim C4, amended. The evaluator returns true exactly when the status list is
  non-empty and its first snapshot has instance status "ok", state "running" and system
  reachability "passed". It returns false exactly when the status list is empty, or the
  instance status of the first snapshot is not "ok", or its state is not "running", or
  its system reachability is reported with a value other than "passed". (What is left,
  an absent system reachability on a running instance with instance status "ok", gives
  neither.)
\<close>

theorem is_instance_reachable_iff:
  "(is_instance_reachable sl = Inr True \<longleftrightarrow>
      (\<exists>s rest. sl = s # rest \<and> status (instance_status s) = Some ''ok'' \<and>
         state_name s = Some ''running'' \<and>
         details (system_status s) ''reachability'' = Some ''passed'')) \<and>
   (is_instance_reachable sl = Inr False \<longleftrightarrow>
      (sl = [] \<or>
       (\<exists>s rest. sl = s # rest \<and>
          (status (instance_status s) \<noteq> Some ''ok'' \<or> state_name s \<noteq> Some ''running'' \<or>
           (\<exists>v. details (system_status s) ''reachability'' = Some v \<and> v \<noteq> ''passed'')))))"
proof (cases sl)
  case Nil
  then show ?thesis by simp
next
  case (Cons s rest)
  then show ?thesis by (auto split: option.splits)
qed

theorem is_instance_reachable_iff_witness:
  "is_instance_reachable [healthy] = Inr True \<and>
   is_instance_reachable [pending] = Inr False \<and>
   is_instance_reachable [] = Inr False \<and>
   is_instance_reachable [healthy\<lparr>system_status :=
       \<lparr>status = Some ''impaired'', details = [''reachability'' \<mapsto> ''failed'']\<rparr>\<rparr>] = Inr False \<and>
   is_instance_reachable [unreported] \<noteq> Inr True \<and>
   is_instance_reachable [unreported] \<noteq> Inr False"
  using is_instance_reachable_iff [of "[healthy]"] is_instance_reachable_iff [of "[pending]"]
    is_instance_reachable_iff [of "[]"]
    is_instance_reachable_iff [of "[healthy\<lparr>system_status :=
       \<lparr>status = Some ''impaired'', details = [''reachability'' \<mapsto> ''failed'']\<rparr>\<rparr>]"]
    is_instance_reachable_iff [of "[unreported]"]
  by (simp add: healthy_def pending_def unreported_def)

text \<open>
  Claim C5 says that the evaluator never raises and returns false on a snapshot with a
  missing field. It does raise: on a running instance with instance status "ok" whose
  system status has no \<open>reachability\<close> entry the dictionary lookup fails.
\<close>

theorem is_instance_reachable_raises:
  "is_instance_reachable [undetailed] = Inl (KeyError ''reachability'')"
  by (simp add: undetailed_def)

text \<open>
  Claim C5, amended. The evaluator raises exactly on a first snapshot with instance
  status "ok", state "running" and no \<open>reachability\<close> entry, and what it raises is the
  \<open>KeyError\<close> of that key; on every other status list it returns a boolean. In
  particular it returns false, without raising, on the empty list, on a missing
  (\<open>None\<close>) instance status and on a missing state name.
\<close>

theorem is_instance_reachable_raises_iff:
  "(is_instance_reachable sl = Inl e \<longleftrightarrow>
      (\<exists>s rest. sl = s # rest \<and> status (instance_status s) = Some ''ok'' \<and>
         state_name s = Some ''running'' \<and>
         details (system_status s) ''reachability'' = None \<and> e = KeyError ''reachability'')) \<and>
   ((sl = [] \<or>
     (\<exists>s rest. sl = s # rest \<and>
        (status (instance_status s) \<noteq> Some ''ok'' \<or> state_name s \<noteq> Some ''running'' \<or>
         details (system_status s) ''reachability'' \<noteq> None)))
      \<longrightarrow> (\<exists>b. is_instance_reachable sl = Inr b)) \<and>
   ((sl = [] \<or>
     (\<exists>s rest. sl = s # rest \<and>
        (status (instance_status s) = None \<or> state_name s = None)))
      \<longrightarrow> is_instance_reachable sl = Inr False)"
proof (cases sl)
  case Nil
  then show ?thesis by auto
next
  case (Cons s rest)
  then show ?thesis by (auto split: option.splits)
qed

theorem is_instance_reachable_raises_iff_witness:
  "is_instance_reachable [undetailed] = Inl (KeyError ''reachability'') \<and>
   (\<exists>b. is_instance_reachable [pending] = Inr b) \<and>
   is_instance_reachable [undetailed\<lparr>state_name := None\<rparr>] = Inr False"
  using is_instance_reachable_raises_iff [of "[undetailed]" "KeyError ''reachability''"]
    is_instance_reachable_raises_iff [of "[pending]"]
    is_instance_reachable_raises_iff [of "[undetailed\<lparr>state_name := None\<rparr>]"]
  by (simp add: undetailed_def pending_def)

section \<open>The polling loop\<close>

text \<open>Once an evaluation finds the instance reachable the loop is over.\<close>

lemma check_health_loop_reachable:
  "check_health_loop conn instance_id interval repeat count st w = (w @ tr, r) \<Longrightarrow>
   Evaluate (Inr True) \<in> set tr \<Longrightarrow>
   r = Inr True \<and> last tr = Evaluate (Inr True) \<and> Evaluate (Inr True) \<notin> set (butlast tr)"
proof (induction "nat (repeat - count)" arbitrary: count st w tr)
  case 0
  from "0.prems"(1) show ?case
  proof (cases rule: check_health_loop_cases)
    case exit
    with "0.prems"(2) show ?thesis by simp
  qed (use "0.hyps" in simp_all)
next
  case (Suc n)
  from Suc.prems(1) show ?case
  proof (cases rule: check_health_loop_cases)
    case (again st' tr')
    from Suc.hyps(2) have n: "n = nat (repeat - (count + 1))" by simp
    from again(5) Suc.prems(2) have mem: "Evaluate (Inr True) \<in> set tr'" by auto
    from Suc.hyps(1)[OF n again(6) mem]
    have ih: "r = Inr True" "last tr' = Evaluate (Inr True)"
      "Evaluate (Inr True) \<notin> set (butlast tr')" by simp_all
    from mem have "tr' \<noteq> []" by auto
    with again(5) ih show ?thesis by (simp add: butlast_append)
  qed (use Suc.prems(2) in simp_all)
qed

text \<open>A query that raises ends the loop with what it raised.\<close>

lemma check_health_loop_query_failed:
  "check_health_loop conn instance_id interval repeat count st w = (w @ tr, r) \<Longrightarrow>
   Query (Inl e) \<in> set tr \<Longrightarrow>
   r = Inl e \<and> last tr = Query (Inl e) \<and> \<not> list_ex query_failed (butlast tr)"
proof (induction "nat (repeat - count)" arbitrary: count st w tr)
  case 0
  from "0.prems"(1) show ?case
  proof (cases rule: check_health_loop_cases)
    case exit
    with "0.prems"(2) show ?thesis by simp
  qed (use "0.hyps" in simp_all)
next
  case (Suc n)
  from Suc.prems(1) show ?case
  proof (cases rule: check_health_loop_cases)
    case (again st' tr')
    from Suc.hyps(2) have n: "n = nat (repeat - (count + 1))" by simp
    from again(5) Suc.prems(2) have mem: "Query (Inl e) \<in> set tr'" by auto
    from Suc.hyps(1)[OF n again(6) mem]
    have ih: "r = Inl e" "last tr' = Query (Inl e)"
      "\<not> list_ex query_failed (butlast tr')" by simp_all
    from mem have "tr' \<noteq> []" by auto
    with again(5) ih show ?thesis by (simp add: butlast_append)
  qed (use Suc.prems(2) in auto)
qed

text \<open>
  From \<open>count\<close> on the loop makes at most \<open>repeat - count\<close> queries, and it makes
  as many sleeps and as many evaluations that return false as it makes queries.
\<close>

lemma check_health_loop_queries:
  "check_health_loop conn instance_id interval repeat count st w = (w @ tr, r) \<Longrightarrow>
   queries_made tr \<le> nat (repeat - count)"
proof (induction "nat (repeat - count)" arbitrary: count st w tr)
  case 0
  from "0.prems"(1) show ?case
    by (cases rule: check_health_loop_cases) (use "0.hyps" in \<open>simp_all add: queries_made_def\<close>)
next
  case (Suc n)
  from Suc.prems(1) show ?case
  proof (cases rule: check_health_loop_cases)
    case (again st' tr')
    from Suc.hyps(2) have n: "n = nat (repeat - (count + 1))" by simp
    from Suc.hyps(1)[OF n again(6)] n Suc.hyps(2) again(5) show ?thesis
      by (simp add: queries_made_def)
  qed (use Suc.hyps(2) in \<open>simp_all add: queries_made_def\<close>)
qed

text \<open>
  When every query answers with a snapshot that evaluates to false (and the interval
  can be slept), the loop runs to its end: it returns false after as many evaluations,
  sleeps and queries as there are rounds left.
\<close>

lemma check_health_loop_never_reachable:
  assumes unreachable: "\<forall>k. \<exists>st. conn [instance_id] k = Inr st \<and> is_instance_reachable st = Inr False"
    and interval: "0 \<le> interval"
  shows "is_instance_reachable st = Inr False \<Longrightarrow>
    \<exists>tr. check_health_loop conn instance_id interval repeat count st w = (w @ tr, Inr False) \<and>
      queries_made tr = nat (repeat - count) \<and>
      evaluations_made tr = nat (repeat - count) \<and>
      sleeps_made tr = replicate (nat (repeat - count)) interval"
proof (induction "nat (repeat - count)" arbitrary: count st w)
  case 0
  then have "\<not> count < repeat" by simp
  with 0 show ?case
    by (subst check_health_loop_unfold)
       (simp add: queries_made_def evaluations_made_def sleeps_made_def)
next
  case (Suc n)
  from Suc.hyps(2) have lt: "count < repeat" and n: "n = nat (repeat - (count + 1))" by auto
  from unreachable[rule_format, of "queries_made w"] obtain st' where
    q: "conn [instance_id] (queries_made w) = Inr st'" and
    ev': "is_instance_reachable st' = Inr False" by blast
  let ?pre = "[Evaluate (Inr False), Sleep interval, Query (Inr st')]"
  from Suc.hyps(1)[OF n ev', of "w @ ?pre"] obtain tr' where
    run: "check_health_loop conn instance_id interval repeat (count + 1) st' (w @ ?pre)
            = ((w @ ?pre) @ tr', Inr False)" and
    cnt: "queries_made tr' = n" "evaluations_made tr' = n" "sleeps_made tr' = replicate n interval"
    using n by auto
  have "check_health_loop conn instance_id interval repeat count st w = (w @ (?pre @ tr'), Inr False)"
    using lt Suc.prems interval q run by (subst check_health_loop_unfold) simp
  moreover have "queries_made (?pre @ tr') = Suc n" "evaluations_made (?pre @ tr') = Suc n"
    "sleeps_made (?pre @ tr') = replicate (Suc n) interval"
    using cnt by (simp_all add: queries_made_def evaluations_made_def sleeps_made_def)
  ultimately show ?case using Suc.hyps(2) by metis
qed

lemma check_health_never_reachable:
  assumes conn: "connect boto region access secret = Some conn"
    and unreachable: "\<forall>k. \<exists>st. conn [instance_id] k = Inr st \<and> is_instance_reachable st = Inr False"
    and interval: "0 \<le> interval" and repeat: "0 \<le> repeat"
  shows "\<exists>tr. check_health boto instance_id region interval repeat access secret w
               = (w @ tr, Inr False) \<and>
      queries_made tr = nat repeat + 1 \<and>
      evaluations_made tr = nat repeat \<and>
      sleeps_made tr = replicate (nat repeat) interval"
proof -
  from unreachable[rule_format, of "queries_made w"] obtain st where
    q: "conn [instance_id] (queries_made w) = Inr st" and
    ev: "is_instance_reachable st = Inr False" by blast
  from check_health_loop_never_reachable[where conn = conn and instance_id = instance_id
         and repeat = repeat and count = 0 and w = "w @ [Query (Inr st)]",
         OF unreachable interval ev]
  obtain tr where
    run: "check_health_loop conn instance_id interval repeat 0 st (w @ [Query (Inr st)])
            = ((w @ [Query (Inr st)]) @ tr, Inr False)" and
    cnt: "queries_made tr = nat repeat" "evaluations_made tr = nat repeat"
      "sleeps_made tr = replicate (nat repeat) interval"
    by auto
  have "check_health boto instance_id region interval repeat access secret w
          = (w @ (Query (Inr st) # tr), Inr False)"
    using conn q run by (simp add: check_health_unfold)
  moreover have "queries_made (Query (Inr st) # tr) = nat repeat + 1"
    "evaluations_made (Query (Inr st) # tr) = nat repeat"
    "sleeps_made (Query (Inr st) # tr) = replicate (nat repeat) interval"
    using cnt by (simp_all add: queries_made_def evaluations_made_def sleeps_made_def)
  ultimately show ?thesis by blast
qed

section \<open>Runs on the example providers\<close>

lemma run_pending_then_healthy:
  "check_health (always_connects (replies [Inr [pending], Inr [healthy]]))
      ''i-123456'' ''us-east-1'' 10 3 None None []
   = ([] @ [Query (Inr [pending]), Evaluate (Inr False), Sleep 10, Query (Inr [healthy]),
            Evaluate (Inr True)], Inr True)"
  by (simp add: check_health_unfold connect_def always_connects_def replies_def
        queries_made_def check_health_loop_unfold healthy_reachable pending_unreachable
        del: is_instance_reachable.simps)

lemma run_pending_then_error:
  "check_health (always_connects (replies [Inr [pending], Inl (EC2ResponseError ''AuthFailure'')]))
      ''i-123456'' ''us-east-1'' 10 3 None None []
   = ([] @ [Query (Inr [pending]), Evaluate (Inr False), Sleep 10,
            Query (Inl (EC2ResponseError ''AuthFailure''))],
      Inl (EC2ResponseError ''AuthFailure''))"
  by (simp add: check_health_unfold connect_def always_connects_def replies_def
        queries_made_def check_health_loop_unfold healthy_reachable pending_unreachable
        del: is_instance_reachable.simps)

section \<open>The controller\<close>

text \<open>
  Claim C6. In every run in which an evaluation finds the instance reachable,
  \<open>check_health\<close> returns true right after that evaluation: it is the last thing the
  run does (no query and no sleep follows it, whatever number of rounds is left) and
  no earlier evaluation had found the instance reachable.
\<close>

theorem check_health_returns_at_first_reachable:
  assumes "check_health boto instance_id region interval repeat access secret w = (w @ tr, r)"
    and "Evaluate (Inr True) \<in> set tr"
  shows "r = Inr True \<and> last tr = Evaluate (Inr True) \<and> Evaluate (Inr True) \<notin> set (butlast tr)"
  using assms(1)
proof (cases rule: check_health_cases)
  case (poll conn st tr')
  from poll(3) assms(2) have mem: "Evaluate (Inr True) \<in> set tr'" by auto
  then have "tr' \<noteq> []" by auto
  with check_health_loop_reachable[OF poll(4) mem] poll(3) show ?thesis by simp
qed (use assms(2) in simp_all)

theorem check_health_returns_at_first_reachable_witness:
  "check_health (always_connects (replies [Inr [pending], Inr [healthy]]))
      ''i-123456'' ''us-east-1'' 10 3 None None []
   = ([] @ [Query (Inr [pending]), Evaluate (Inr False), Sleep 10, Query (Inr [healthy]),
            Evaluate (Inr True)], Inr True) \<and>
   Evaluate (Inr True) \<in> set [Query (Inr [pending]), Evaluate (Inr False), Sleep 10,
      Query (Inr [healthy]), Evaluate (Inr True)] \<and>
   last [Query (Inr [pending]), Evaluate (Inr False), Sleep 10, Query (Inr [healthy]),
      Evaluate (Inr True)] = Evaluate (Inr True) \<and>
   Evaluate (Inr True) \<notin> set (butlast [Query (Inr [pending]), Evaluate (Inr False), Sleep 10,
      Query (Inr [healthy]), Evaluate (Inr True)])"
proof -
  have mem: "Evaluate (Inr True) \<in> set [Query (Inr [pending]), Evaluate (Inr False), Sleep 10,
      Query (Inr [healthy]), Evaluate (Inr True)]" by simp
  from check_health_returns_at_first_reachable[OF run_pending_then_healthy mem]
    run_pending_then_healthy mem
  show ?thesis by blast
qed

text \<open>
  Claim C7. When a status query raises, on whichever attempt, \<open>check_health\<close> ends
  with that very exception and no boolean: the failed query is the last thing the run
  does (no query and no sleep follows it) and it is the only failed query of the run,
  so nothing was swallowed or retried.
\<close>

theorem check_health_propagates_query_error:
  assumes "check_health boto instance_id region interval repeat access secret w = (w @ tr, r)"
    and "Query (Inl e) \<in> set tr"
  shows "r = Inl e \<and> last tr = Query (Inl e) \<and> \<not> list_ex query_failed (butlast tr)"
  using assms(1)
proof (cases rule: check_health_cases)
  case (poll conn st tr')
  from poll(3) assms(2) have mem: "Query (Inl e) \<in> set tr'" by auto
  then have "tr' \<noteq> []" by auto
  with check_health_loop_query_failed[OF poll(4) mem] poll(3) show ?thesis by simp
qed (use assms(2) in auto)

theorem check_health_propagates_query_error_witness:
  "check_health (always_connects (replies [Inr [pending], Inl (EC2ResponseError ''AuthFailure'')]))
      ''i-123456'' ''us-east-1'' 10 3 None None []
   = ([] @ [Query (Inr [pending]), Evaluate (Inr False), Sleep 10,
            Query (Inl (EC2ResponseError ''AuthFailure''))],
      Inl (EC2ResponseError ''AuthFailure'')) \<and>
   Query (Inl (EC2ResponseError ''AuthFailure'')) \<in> set [Query (Inr [pending]),
      Evaluate (Inr False), Sleep 10, Query (Inl (EC2ResponseError ''AuthFailure''))] \<and>
   last [Query (Inr [pending]), Evaluate (Inr False), Sleep 10,
      Query (Inl (EC2ResponseError ''AuthFailure''))]
     = Query (Inl (EC2ResponseError ''AuthFailure'')) \<and>
   \<not> list_ex query_failed (butlast [Query (Inr [pending]), Evaluate (Inr False), Sleep 10,
      Query (Inl (EC2ResponseError ''AuthFailure''))])"
proof -
  have mem: "Query (Inl (EC2ResponseError ''AuthFailure'')) \<in> set [Query (Inr [pending]),
      Evaluate (Inr False), Sleep 10, Query (Inl (EC2ResponseError ''AuthFailure''))]" by simp
  from check_health_propagates_query_error[OF run_pending_then_error mem]
    run_pending_then_error mem
  show ?thesis by blast
qed

text \<open>
  Claim C8. A run of \<open>check_health\<close> that returns a boolean, for a non-negative
  \<open>repeat\<close>, has made at least one status query and at most \<open>repeat + 1\<close>.
\<close>

theorem check_health_query_count:
  assumes "check_health boto instance_id region interval repeat access secret w = (w @ tr, Inr b)"
    and "0 \<le> repeat"
  shows "1 \<le> queries_made tr \<and> int (queries_made tr) \<le> repeat + 1"
  using assms(1)
proof (cases rule: check_health_cases)
  case (poll conn st tr')
  from check_health_loop_queries[OF poll(4)] have "queries_made tr' \<le> nat repeat" by simp
  with poll(3) assms(2) show ?thesis by (simp add: queries_made_def)
qed simp_all

theorem check_health_query_count_witness:
  "check_health (always_connects (replies [Inr [pending], Inr [healthy]]))
      ''i-123456'' ''us-east-1'' 10 3 None None []
   = ([] @ [Query (Inr [pending]), Evaluate (Inr False), Sleep 10, Query (Inr [healthy]),
            Evaluate (Inr True)], Inr True) \<and>
   (0::int) \<le> 3 \<and>
   queries_made [Query (Inr [pending]), Evaluate (Inr False), Sleep 10, Query (Inr [healthy]),
            Evaluate (Inr True)] = 2"
proof -
  have nonneg: "(0::int) \<le> 3" by simp
  from check_health_query_count[OF run_pending_then_healthy nonneg] run_pending_then_healthy
  show ?thesis by (simp add: queries_made_def)
qed

text \<open>
  Claim C10. For a \<open>repeat\<close> of zero or less, once the connection is made and the
  status query answers, \<open>check_health\<close> returns false whatever the snapshot says
  (also for a fully reachable instance): the run consists of that one query, with no
  evaluation and no sleep.
\<close>

theorem check_health_nonpositive_repeat:
  assumes "repeat \<le> 0"
    and "connect boto region access secret = Some conn"
    and "conn [instance_id] (queries_made w) = Inr st"
  shows "check_health boto instance_id region interval repeat access secret w
           = (w @ [Query (Inr st)], Inr False) \<and>
         queries_made [Query (Inr st)] = 1 \<and>
         evaluations_made [Query (Inr st)] = 0 \<and>
         sleeps_made [Query (Inr st)] = []"
proof -
  from assms(1) have "\<not> 0 < repeat" by simp
  then have "check_health_loop conn instance_id interval repeat 0 st (w @ [Query (Inr st)])
               = (w @ [Query (Inr st)], Inr False)"
    by (subst check_health_loop_unfold) simp
  with assms(2,3) show ?thesis
    by (simp add: check_health_unfold queries_made_def evaluations_made_def sleeps_made_def)
qed

theorem check_health_nonpositive_repeat_witness:
  "(- 3 :: int) \<le> 0 \<and>
   connect (always_connects (replies [Inr [healthy]])) ''us-east-1'' None None
     = Some (replies [Inr [healthy]]) \<and>
   replies [Inr [healthy]] [''i-123456''] (queries_made []) = Inr [healthy] \<and>
   is_instance_reachable [healthy] = Inr True \<and>
   check_health (always_connects (replies [Inr [healthy]])) ''i-123456'' ''us-east-1'' 10 (- 3)
       None None []
     = ([Query (Inr [healthy])], Inr False)"
proof -
  have neg: "(- 3 :: int) \<le> 0" by simp
  have conn: "connect (always_connects (replies [Inr [healthy]])) ''us-east-1'' None None
     = Some (replies [Inr [healthy]])" by (simp add: connect_def always_connects_def)
  have q: "replies [Inr [healthy]] [''i-123456''] (queries_made []) = Inr [healthy]"
    by (simp add: replies_def queries_made_def)
  from check_health_nonpositive_repeat[OF neg conn q, of 10] neg conn q healthy_reachable
  show ?thesis by simp
qed

text \<open>
  Claim C1 is about the run with \<open>repeat = 1\<close> and interval 10 whose first query
  answers with a pending instance and whose second query answers with a healthy one.
  The run makes two queries and sleeps once for 10 seconds, as the claim says, but the
  second snapshot is never evaluated and the run returns false.
\<close>

theorem check_health_pending_then_healthy:
  "check_health (always_connects (replies [Inr [pending], Inr [healthy]]))
      ''i-123456'' ''us-east-1'' 10 1 None None []
   = ([Query (Inr [pending]), Evaluate (Inr False), Sleep 10, Query (Inr [healthy])],
      Inr False)"
  by (simp add: check_health_unfold connect_def always_connects_def replies_def
        queries_made_def check_health_loop_unfold healthy_reachable pending_unreachable
        del: is_instance_reachable.simps)

text \<open>
  Claim C2 is about \<open>repeat = 0\<close>. The run makes its one query and never sleeps,
  as the claim says, but it does not evaluate the snapshot: on a healthy instance it
  returns false.
\<close>

theorem check_health_repeat_zero_healthy:
  "check_health (always_connects (replies [Inr [healthy]]))
      ''i-123456'' ''us-east-1'' 10 0 None None []
   = ([Query (Inr [healthy])], Inr False) \<and>
   is_instance_reachable [healthy] = Inr True"
  by (simp add: check_health_unfold connect_def always_connects_def replies_def
        queries_made_def check_health_loop_unfold healthy_reachable pending_unreachable
        del: is_instance_reachable.simps)

text \<open>
  Claim C3 is about a run in which no evaluation succeeds. With \<open>repeat = 2\<close> and an
  instance that stays pending the run makes three queries and sleeps twice, as the
  claim says, but there are only two evaluations: the last sleep and the last query
  come after the final evaluation, and the snapshot of the last query is never
  evaluated.
\<close>

theorem check_health_always_pending:
  "check_health (always_connects (replies [Inr [pending], Inr [pending], Inr [pending]]))
      ''i-123456'' ''us-east-1'' 5 2 None None []
   = ([Query (Inr [pending]), Evaluate (Inr False), Sleep 5,
       Query (Inr [pending]), Evaluate (Inr False), Sleep 5,
       Query (Inr [pending])], Inr False) \<and>
   queries_made [Query (Inr [pending]), Evaluate (Inr False), Sleep 5,
       Query (Inr [pending]), Evaluate (Inr False), Sleep 5,
       Query (Inr [pending])] = 3 \<and>
   evaluations_made [Query (Inr [pending]), Evaluate (Inr False), Sleep 5,
       Query (Inr [pending]), Evaluate (Inr False), Sleep 5,
       Query (Inr [pending])] = 2"
  by (simp add: check_health_unfold connect_def always_connects_def replies_def
        queries_made_def evaluations_made_def check_health_loop_unfold healthy_reachable
        pending_unreachable
        del: is_instance_reachable.simps)

section \<open>The report of the module\<close>

text \<open>
  Claim C9. When \<open>check_health\<close> returns a boolean, \<open>main\<close> reports as follows: for a
  reachable instance the success payload with \<open>changed\<close> false and the reachability
  message, whatever \<open>fail_unreachable\<close> is; for an unreachable instance the failure
  payload with the unreachable message when \<open>fail_unreachable\<close> is set, and the
  success payload with \<open>changed\<close> false and the unreachable message otherwise.
\<close>

theorem main_reports:
  assumes "check_health boto (param_instance_id p) (param_region p) (param_interval p)
             (param_repeat p) (param_aws_access_key p) (param_aws_secret_key p) w
           = (w1, Inr reachable)"
  shows "main True boto p w =
     (w1, if reachable
          then exit_json False (''The following instance is rechable '' @ param_instance_id p)
          else if param_fail_unreachable p
          then fail_json (''The following instance isn't reachable: '' @ param_instance_id p)
          else exit_json False (''The following instance is unreachable '' @ param_instance_id p))"
  using assms by (simp add: main_def Let_def)

theorem main_reports_witness:
  "check_health (always_connects (replies [Inr [pending], Inr [healthy]]))
      ''i-123456'' ''us-east-1'' 10 1 None None []
   = ([Query (Inr [pending]), Evaluate (Inr False), Sleep 10, Query (Inr [healthy])],
      Inr False) \<and>
   main True (always_connects (replies [Inr [pending], Inr [healthy]]))
     \<lparr>param_instance_id = ''i-123456'', param_region = ''us-east-1'', param_interval = 10,
      param_repeat = 1, param_fail_unreachable = False,
      param_aws_access_key = None, param_aws_secret_key = None\<rparr> []
   = ([Query (Inr [pending]), Evaluate (Inr False), Sleep 10, Query (Inr [healthy])],
      exit_json False ''The following instance is unreachable i-123456'') \<and>
   main True (always_connects (replies [Inr [pending], Inr [healthy]]))
     \<lparr>param_instance_id = ''i-123456'', param_region = ''us-east-1'', param_interval = 10,
      param_repeat = 1, param_fail_unreachable = True,
      param_aws_access_key = None, param_aws_secret_key = None\<rparr> []
   = ([Query (Inr [pending]), Evaluate (Inr False), Sleep 10, Query (Inr [healthy])],
      fail_json ''The following instance isn't reachable: i-123456'') \<and>
   main True (always_connects (replies [Inr [healthy]]))
     \<lparr>param_instance_id = ''i-123456'', param_region = ''us-east-1'', param_interval = 10,
      param_repeat = 1, param_fail_unreachable = True,
      param_aws_access_key = None, param_aws_secret_key = None\<rparr> []
   = ([Query (Inr [healthy]), Evaluate (Inr True)],
      exit_json False ''The following instance is rechable i-123456'')"
proof -
  have up: "check_health (always_connects (replies [Inr [healthy]]))
      ''i-123456'' ''us-east-1'' 10 1 None None []
   = ([Query (Inr [healthy]), Evaluate (Inr True)], Inr True)"
    by (simp add: check_health_unfold connect_def always_connects_def replies_def
          queries_made_def check_health_loop_unfold healthy_reachable pending_unreachable
          del: is_instance_reachable.simps)
  have run: "check_health (always_connects (replies [Inr [pending], Inr [healthy]]))
      ''i-123456'' ''us-east-1'' 10 1 None None []
   = ([Query (Inr [pending]), Evaluate (Inr False), Sleep 10, Query (Inr [healthy])],
      Inr False)"
    by (simp add: check_health_unfold connect_def always_connects_def replies_def
          queries_made_def check_health_loop_unfold healthy_reachable pending_unreachable
          del: is_instance_reachable.simps)
  from main_reports[of "always_connects (replies [Inr [pending], Inr [healthy]])"
      "\<lparr>param_instance_id = ''i-123456'', param_region = ''us-east-1'', param_interval = 10,
        param_repeat = 1, param_fail_unreachable = False,
        param_aws_access_key = None, param_aws_secret_key = None\<rparr>" "[]"
      "[Query (Inr [pending]), Evaluate (Inr False), Sleep 10, Query (Inr [healthy])]" False]
    main_reports[of "always_connects (replies [Inr [pending], Inr [healthy]])"
      "\<lparr>param_instance_id = ''i-123456'', param_region = ''us-east-1'', param_interval = 10,
        param_repeat = 1, param_fail_unreachable = True,
        param_aws_access_key = None, param_aws_secret_key = None\<rparr>" "[]"
      "[Query (Inr [pending]), Evaluate (Inr False), Sleep 10, Query (Inr [healthy])]" False]
    main_reports[of "always_connects (replies [Inr [healthy]])"
      "\<lparr>param_instance_id = ''i-123456'', param_region = ''us-east-1'', param_interval = 10,
        param_repeat = 1, param_fail_unreachable = True,
        param_aws_access_key = None, param_aws_secret_key = None\<rparr>" "[]"
      "[Query (Inr [healthy]), Evaluate (Inr True)]" True]
    run up
  show ?thesis by simp
qed

end
